theory Spec2Isabelle
  imports Main "HOL-Library.Sublist"
begin

section \<open>Values of the Python program\<close>

text \<open>
  A Python \<open>str\<close> is a sequence of Unicode code points and \<open>len\<close> counts code points, so a
  string is a list of code points here (the seed names and the messages of \<open>main.py\<close> are
  Korean and do not fit 8-bit characters). \<open>ascii\<close> reads an ASCII literal as such a list.
\<close>

type_synonym pystr = "nat list"

definition ascii :: "string \<Rightarrow> pystr" where
  "ascii s = map of_char s"

text \<open>\<open>str(n)\<close> for an integer: decimal digits, with a leading minus sign below zero.\<close>

fun str_nat :: "nat \<Rightarrow> pystr" where
  "str_nat n = (if n < 10 then [48 + n] else str_nat (n div 10) @ [48 + n mod 10])"

declare str_nat.simps [simp del]

definition str_int :: "int \<Rightarrow> pystr" where
  "str_int i = (if i < 0 then 45 # str_nat (nat (- i)) else str_nat (nat i))"

text \<open>
  The exceptions the handlers can end in. \<open>HTTPException c\<close> carries the status code;
  \<open>ValidationError\<close> is what pydantic raises when a field constraint is violated (the
  framework answers 422 when it happens on the request body); \<open>AttributeError\<close> and
  \<open>ValueError\<close> are the interpreter's own.
\<close>

datatype error = HTTPException int | ValidationError | AttributeError | ValueError

abbreviation NotFound :: error where
  "NotFound \<equiv> HTTPException 404"

subsection \<open>class UserRole(str, Enum)\<close>

datatype UserRole = ADMIN | USER | GUEST

fun UserRole_value :: "UserRole \<Rightarrow> pystr" where
  "UserRole_value ADMIN = ascii ''admin''"
| "UserRole_value USER = ascii ''user''"
| "UserRole_value GUEST = ascii ''guest''"

subsection \<open>class User(BaseModel)\<close>

text \<open>
  The stored record. The class declares \<open>name: str\<close>, \<open>email: str\<close>, \<open>role: UserRole\<close> and
  \<open>is_active: bool\<close>, but \<open>update_user\<close> builds records with \<open>copy(update=...)\<close>, which
  does not validate, so at run time every field except \<open>id\<close> can hold \<open>None\<close>. The fields
  are therefore optional values; \<open>id\<close> is never written after construction. The models
  share field names, so each record's selectors carry a prefix: \<open>u_\<close> for \<open>User\<close>,
  \<open>c_\<close> for \<open>UserCreate\<close>, \<open>up_\<close> for \<open>UserUpdate\<close>, \<open>j_\<close> for a request body.
\<close>

record User =
  u_id :: int
  u_name :: "pystr option"
  u_email :: "pystr option"
  u_age :: "int option"
  u_role :: "UserRole option"
  u_is_active :: "bool option"

text \<open>The two field constraints: \<open>Field(min_length=2, max_length=50)\<close> and \<open>Field(ge=0, le=120)\<close>.\<close>

definition check_name :: "pystr \<Rightarrow> bool" where
  "check_name n = (2 \<le> length n \<and> length n \<le> 50)"

definition check_age :: "int \<Rightarrow> bool" where
  "check_age a = (0 \<le> a \<and> a \<le> 120)"

text \<open>
  \<open>User(id=i, name=n, email=e, age=a, role=r)\<close>: the constructor validates \<open>name\<close> and
  \<open>age\<close> and fills \<open>is_active\<close> with its default \<open>True\<close>.
\<close>

definition User_init :: "int \<Rightarrow> pystr \<Rightarrow> pystr \<Rightarrow> int option \<Rightarrow> UserRole \<Rightarrow> error + User" where
  "User_init i n e a r =
     (if check_name n \<and> (case a of None \<Rightarrow> True | Some x \<Rightarrow> check_age x)
      then Inr \<lparr>u_id = i, u_name = Some n, u_email = Some e, u_age = a,
                u_role = Some r, u_is_active = Some True\<rparr>
      else Inl ValidationError)"

subsection \<open>Request bodies\<close>

text \<open>
  A member of a JSON request body is absent, or present with \<open>null\<close> (\<open>Present None\<close>) or
  with a value of the member's type. Members a model does not declare are ignored by
  pydantic, so one body type serves both \<open>POST /users\<close> and \<open>PUT /users/{id}\<close>.
\<close>

datatype 'a field = Absent | Present "'a option"

record json_body =
  j_name :: "pystr field"
  j_email :: "pystr field"
  j_age :: "int field"
  j_role :: "UserRole field"
  j_is_active :: "bool field"

text \<open>
  Parsing one member; \<open>None\<close> is a validation error of that member.
  \<^item> \<open>parse_required\<close>: a field declared \<open>T = Field(...)\<close> must be present and not null;
  \<^item> \<open>parse_optional\<close>: a field declared \<open>Optional[T] = None\<close> is \<open>None\<close> when absent or null;
  \<^item> \<open>parse_default\<close>: a field declared \<open>T = Field(default=d)\<close> is \<open>d\<close> when absent and
    rejects null.
\<close>

fun parse_required :: "('a \<Rightarrow> bool) \<Rightarrow> 'a field \<Rightarrow> 'a option" where
  "parse_required chk Absent = None"
| "parse_required chk (Present None) = None"
| "parse_required chk (Present (Some v)) = (if chk v then Some v else None)"

fun parse_optional :: "('a \<Rightarrow> bool) \<Rightarrow> 'a field \<Rightarrow> 'a option option" where
  "parse_optional chk Absent = Some None"
| "parse_optional chk (Present None) = Some None"
| "parse_optional chk (Present (Some v)) = (if chk v then Some (Some v) else None)"

fun parse_default :: "'a \<Rightarrow> 'a field \<Rightarrow> 'a option" where
  "parse_default d Absent = Some d"
| "parse_default d (Present None) = None"
| "parse_default d (Present (Some v)) = Some v"

subsection \<open>class UserCreate(BaseModel)\<close>

record UserCreate =
  c_name :: pystr
  c_email :: pystr
  c_age :: "int option"
  c_role :: UserRole

definition UserCreate_parse :: "json_body \<Rightarrow> error + UserCreate" where
  "UserCreate_parse b =
     (case (parse_required check_name (j_name b),
            parse_required (\<lambda>_. True) (j_email b),
            parse_optional check_age (j_age b),
            parse_default USER (j_role b)) of
        (Some n, Some e, Some a, Some r) \<Rightarrow>
          Inr \<lparr>c_name = n, c_email = e, c_age = a, c_role = r\<rparr>
      | _ \<Rightarrow> Inl ValidationError)"

subsection \<open>class UserUpdate(BaseModel)\<close>

text \<open>
  Every field is \<open>Optional\<close> with default \<open>None\<close>. Beside the field values a pydantic model
  remembers which fields the input supplied (\<open>__fields_set__\<close>); \<open>dict(exclude_unset=True)\<close>
  reads it.
\<close>

datatype fieldname = F_name | F_email | F_age | F_role | F_is_active

record UserUpdate =
  up_name :: "pystr option"
  up_email :: "pystr option"
  up_age :: "int option"
  up_role :: "UserRole option"
  up_is_active :: "bool option"
  up_fields_set :: "fieldname set"

fun supplied :: "fieldname \<Rightarrow> 'a field \<Rightarrow> fieldname set" where
  "supplied k Absent = {}"
| "supplied k (Present v) = {k}"

definition UserUpdate_parse :: "json_body \<Rightarrow> error + UserUpdate" where
  "UserUpdate_parse b =
     (case (parse_optional check_name (j_name b),
            parse_optional (\<lambda>_. True) (j_email b),
            parse_optional check_age (j_age b),
            parse_optional (\<lambda>_. True) (j_role b),
            parse_optional (\<lambda>_. True) (j_is_active b)) of
        (Some n, Some e, Some a, Some r, Some act) \<Rightarrow>
          Inr \<lparr>up_name = n, up_email = e, up_age = a, up_role = r, up_is_active = act,
                up_fields_set = supplied F_name (j_name b) \<union> supplied F_email (j_email b)
                  \<union> supplied F_age (j_age b) \<union> supplied F_role (j_role b)
                  \<union> supplied F_is_active (j_is_active b)\<rparr>
      | _ \<Rightarrow> Inl ValidationError)"

text \<open>
  \<open>user_update.dict(exclude_unset=True)\<close>: a dictionary holding a key for exactly the
  fields that were supplied. Per key, \<open>None\<close> is "no such key" and \<open>Some v\<close> is the key
  with value \<open>v\<close> (which may itself be Python's \<open>None\<close>).
\<close>

record update_data =
  d_name :: "pystr option option"
  d_email :: "pystr option option"
  d_age :: "int option option"
  d_role :: "UserRole option option"
  d_is_active :: "bool option option"

definition dict_exclude_unset :: "UserUpdate \<Rightarrow> update_data" where
  "dict_exclude_unset m =
     \<lparr>d_name = (if F_name \<in> up_fields_set m then Some (up_name m) else None),
      d_email = (if F_email \<in> up_fields_set m then Some (up_email m) else None),
      d_age = (if F_age \<in> up_fields_set m then Some (up_age m) else None),
      d_role = (if F_role \<in> up_fields_set m then Some (up_role m) else None),
      d_is_active = (if F_is_active \<in> up_fields_set m then Some (up_is_active m) else None)\<rparr>"

text \<open>\<open>existing_user.copy(update=update_data)\<close>: the keys of the dictionary replace the
  fields of the copy, unvalidated; the other fields are copied.\<close>

definition copy_update :: "User \<Rightarrow> update_data \<Rightarrow> User" where
  "copy_update u d =
     u\<lparr>u_name := (case d_name d of None \<Rightarrow> u_name u | Some v \<Rightarrow> v),
       u_email := (case d_email d of None \<Rightarrow> u_email u | Some v \<Rightarrow> v),
       u_age := (case d_age d of None \<Rightarrow> u_age u | Some v \<Rightarrow> v),
       u_role := (case d_role d of None \<Rightarrow> u_role u | Some v \<Rightarrow> v),
       u_is_active := (case d_is_active d of None \<Rightarrow> u_is_active u | Some v \<Rightarrow> v)\<rparr>"

subsection \<open>class Message(BaseModel)\<close>

record Message =
  message :: pystr
  status_code :: int

section \<open>The collection and its handlers\<close>

text \<open>
  \<open>users_db\<close> is a module-level list that the handlers read and mutate. Each handler takes
  the list as an argument; a handler that mutates returns its outcome together with the
  list it leaves behind.
\<close>

definition users_db :: "User list" where
  "users_db =
     [\<lparr>u_id = 1, u_name = Some [44608, 52384, 49688], u_email = Some (ascii ''kim@example.com''),
       u_age = Some 25, u_role = Some USER, u_is_active = Some True\<rparr>,
      \<lparr>u_id = 2, u_name = Some [51060, 50689, 55148], u_email = Some (ascii ''lee@example.com''),
       u_age = Some 30, u_role = Some ADMIN, u_is_active = Some True\<rparr>,
      \<lparr>u_id = 3, u_name = Some [48149, 48124, 49688], u_email = Some (ascii ''park@example.com''),
       u_age = Some 22, u_role = Some USER, u_is_active = Some True\<rparr>]"

definition get_users :: "User list \<Rightarrow> User list" where
  "get_users db = db"

text \<open>\<open>next((user for user in users_db if user.id == user_id), None)\<close>; a model instance
  is always truthy, so \<open>not user\<close> holds for \<open>None\<close> only.\<close>

definition get_user :: "User list \<Rightarrow> int \<Rightarrow> error + User" where
  "get_user db user_id =
     (case find (\<lambda>user. u_id user = user_id) db of
        None \<Rightarrow> Inl (HTTPException 404)
      | Some user \<Rightarrow> Inr user)"

text \<open>\<open>max\<close> of a list raises \<open>ValueError\<close> on the empty list.\<close>

fun py_max :: "int list \<Rightarrow> error + int" where
  "py_max [] = Inl ValueError"
| "py_max (x # xs) = Inr (fold (\<lambda>y m. if y > m then y else m) xs x)"

text \<open>\<open>max([u.id for u in users_db]) + 1 if users_db else 1\<close>\<close>

definition new_id :: "User list \<Rightarrow> error + int" where
  "new_id db =
     (if db \<noteq> [] then (case py_max (map u_id db) of Inl e \<Rightarrow> Inl e | Inr m \<Rightarrow> Inr (m + 1))
      else Inr 1)"

definition create_user :: "User list \<Rightarrow> UserCreate \<Rightarrow> (error + User) \<times> User list" where
  "create_user db user =
     (case new_id db of
        Inl e \<Rightarrow> (Inl e, db)
      | Inr i \<Rightarrow>
          (case User_init i (c_name user) (c_email user) (c_age user) (c_role user) of
             Inl e \<Rightarrow> (Inl e, db)
           | Inr new_user \<Rightarrow> (Inr new_user, db @ [new_user])))"

text \<open>\<open>POST /users\<close>: the framework parses the body into \<open>UserCreate\<close> and calls the
  handler only when that succeeds.\<close>

definition post_users :: "User list \<Rightarrow> json_body \<Rightarrow> (error + User) \<times> User list" where
  "post_users db b =
     (case UserCreate_parse b of
        Inl e \<Rightarrow> (Inl e, db)
      | Inr user \<Rightarrow> create_user db user)"

text \<open>\<open>next((i for i, user in enumerate(users_db) if user.id == user_id), None)\<close>\<close>

fun user_index :: "User list \<Rightarrow> int \<Rightarrow> nat option" where
  "user_index [] user_id = None"
| "user_index (user # rest) user_id =
     (if u_id user = user_id then Some 0 else map_option Suc (user_index rest user_id))"

definition update_user :: "User list \<Rightarrow> int \<Rightarrow> UserUpdate \<Rightarrow> (error + User) \<times> User list" where
  "update_user db user_id user_update =
     (case user_index db user_id of
        None \<Rightarrow> (Inl (HTTPException 404), db)
      | Some i \<Rightarrow>
          (let existing_user = db ! i;
               updated_user = copy_update existing_user (dict_exclude_unset user_update)
           in (Inr updated_user, db[i := updated_user])))"

text \<open>\<open>PUT /users/{user_id}\<close>\<close>

definition put_users :: "User list \<Rightarrow> int \<Rightarrow> json_body \<Rightarrow> (error + User) \<times> User list" where
  "put_users db user_id b =
     (case UserUpdate_parse b of
        Inl e \<Rightarrow> (Inl e, db)
      | Inr user_update \<Rightarrow> update_user db user_id user_update)"

text \<open>\<open>xs.pop(i)\<close> for an index in range.\<close>

definition pop :: "nat \<Rightarrow> 'a list \<Rightarrow> 'a list" where
  "pop i xs = take i xs @ drop (Suc i) xs"

definition delete_message :: "int \<Rightarrow> pystr" where
  "delete_message user_id =
     [49324, 50857, 51088, 32, 73, 68, 32] @ str_int user_id
       @ [44032, 32, 49325, 51228, 46104, 50632, 49845, 45768, 45796]"

definition delete_user :: "User list \<Rightarrow> int \<Rightarrow> (error + Message) \<times> User list" where
  "delete_user db user_id =
     (case user_index db user_id of
        None \<Rightarrow> (Inl (HTTPException 404), db)
      | Some i \<Rightarrow> (Inr \<lparr>message = delete_message user_id, status_code = 200\<rparr>, pop i db))"

subsection \<open>search_users\<close>

text \<open>
  \<open>[u for u in filtered_users if name.lower() in u.name.lower()]\<close>. \<open>str.lower\<close> is the
  interpreter's Unicode lower-casing and is a parameter here. A record whose name is
  \<open>None\<close> has no \<open>lower\<close>: the comprehension raises \<open>AttributeError\<close> when it reaches it.
  \<open>x in y\<close> on strings is the contiguous-substring test.
\<close>

fun filter_name :: "(pystr \<Rightarrow> pystr) \<Rightarrow> pystr \<Rightarrow> User list \<Rightarrow> error + User list" where
  "filter_name lower name [] = Inr []"
| "filter_name lower name (u # us) =
     (case u_name u of
        None \<Rightarrow> Inl AttributeError
      | Some n \<Rightarrow>
          (case filter_name lower name us of
             Inl e \<Rightarrow> Inl e
           | Inr rest \<Rightarrow> Inr (if sublist (lower name) (lower n) then u # rest else rest)))"

text \<open>\<open>u.age and u.age >= min_age\<close>: \<open>and\<close> yields its left operand when that is falsy, and
  both \<open>None\<close> and \<open>0\<close> are falsy.\<close>

definition age_at_least :: "int \<Rightarrow> User \<Rightarrow> bool" where
  "age_at_least min_age u =
     (case u_age u of None \<Rightarrow> False | Some a \<Rightarrow> a \<noteq> 0 \<and> a \<ge> min_age)"

definition age_at_most :: "int \<Rightarrow> User \<Rightarrow> bool" where
  "age_at_most max_age u =
     (case u_age u of None \<Rightarrow> False | Some a \<Rightarrow> a \<noteq> 0 \<and> a \<le> max_age)"

text \<open>
  The four \<open>if\<close>s in order. \<open>if name:\<close> holds for a non-empty string; \<open>if role:\<close> for an enum
  member whose string value is non-empty (the enum mixes in \<open>str\<close>); the age parameters are
  tested with \<open>is not None\<close>.
\<close>

definition search_users ::
  "(pystr \<Rightarrow> pystr) \<Rightarrow> User list \<Rightarrow> pystr option \<Rightarrow> UserRole option \<Rightarrow> int option \<Rightarrow> int option
     \<Rightarrow> error + User list" where
  "search_users lower db name role min_age max_age =
     (case (case name of
              None \<Rightarrow> Inr db
            | Some n \<Rightarrow> if n \<noteq> [] then filter_name lower n db else Inr db) of
        Inl e \<Rightarrow> Inl e
      | Inr by_name \<Rightarrow>
          (let by_role =
                 (case role of
                    None \<Rightarrow> by_name
                  | Some r \<Rightarrow>
                      if UserRole_value r \<noteq> [] then filter (\<lambda>u. u_role u = Some r) by_name
                      else by_name);
               by_min =
                 (case min_age of
                    None \<Rightarrow> by_role
                  | Some lo \<Rightarrow> filter (age_at_least lo) by_role);
               by_max =
                 (case max_age of
                    None \<Rightarrow> by_min
                  | Some hi \<Rightarrow> filter (age_at_most hi) by_min)
           in Inr by_max))"

subsection \<open>get_stats\<close>

record Stats =
  total_users :: int
  active_users :: int
  inactive_users :: int
  role_distribution :: "UserRole option \<rightharpoonup> int"

text \<open>\<open>role_counts[user.role] = role_counts.get(user.role, 0) + 1\<close>\<close>

definition count_role :: "User \<Rightarrow> (UserRole option \<rightharpoonup> int) \<Rightarrow> (UserRole option \<rightharpoonup> int)" where
  "count_role user role_counts =
     role_counts(u_role user \<mapsto> (case role_counts (u_role user) of None \<Rightarrow> 0 | Some c \<Rightarrow> c) + 1)"

definition get_stats :: "User list \<Rightarrow> Stats" where
  "get_stats db =
     (let total = int (length db);
          active = int (length (filter (\<lambda>u. u_is_active u = Some True) db));
          role_counts = fold count_role db Map.empty
      in \<lparr>total_users = total, active_users = active,
          inactive_users = total - active, role_distribution = role_counts\<rparr>)"

section \<open>Example requests\<close>

text \<open>Concrete request bodies on which the results below are evaluated.\<close>

definition body_short_name :: json_body where
  "body_short_name =
     \<lparr>j_name = Present (Some (ascii ''A'')), j_email = Present (Some (ascii ''a@example.com'')),
      j_age = Absent, j_role = Absent, j_is_active = Absent\<rparr>"

definition body_guest :: json_body where
  "body_guest =
     \<lparr>j_name = Present (Some (ascii ''Dana'')), j_email = Present (Some (ascii ''dana@example.com'')),
      j_age = Present (Some 41), j_role = Present (Some GUEST), j_is_active = Absent\<rparr>"

definition body_infant :: json_body where
  "body_infant =
     \<lparr>j_name = Present (Some (ascii ''Baby'')), j_email = Present (Some (ascii ''baby@example.com'')),
      j_age = Present (Some 0), j_role = Absent, j_is_active = Absent\<rparr>"

definition body_age_only :: "int \<Rightarrow> json_body" where
  "body_age_only a =
     \<lparr>j_name = Absent, j_email = Absent, j_age = Present (Some a), j_role = Absent,
      j_is_active = Absent\<rparr>"


definition body_all_null :: json_body where
  "body_all_null =
     \<lparr>j_name = Present None, j_email = Present None, j_age = Present None,
      j_role = Present None, j_is_active = Present None\<rparr>"

definition body_empty :: json_body where
  "body_empty =
     \<lparr>j_name = Absent, j_email = Absent, j_age = Absent, j_role = Absent, j_is_active = Absent\<rparr>"

text \<open>The record \<open>POST /users\<close> builds from \<open>body_infant\<close> on the seed collection.\<close>

definition infant :: User where
  "infant =
     \<lparr>u_id = 4, u_name = Some (ascii ''Baby''), u_email = Some (ascii ''baby@example.com''),
      u_age = Some 0, u_role = Some USER, u_is_active = Some True\<rparr>"

section \<open>Reachable collections\<close>

text \<open>
  The collections the service can hold: the seed list, and whatever a mutating request
  leaves behind, whether it succeeded or not.
\<close>

inductive reachable :: "User list \<Rightarrow> bool" where
  start: "reachable users_db"
| post: "reachable db \<Longrightarrow> reachable (snd (post_users db b))"
| put: "reachable db \<Longrightarrow> reachable (snd (put_users db user_id b))"
| delete: "reachable db \<Longrightarrow> reachable (snd (delete_user db user_id))"

section \<open>Parsing request bodies\<close>

lemma parse_required_Some:
  "parse_required chk f = Some v \<longleftrightarrow> f = Present (Some v) \<and> chk v"
  by (cases "(chk, f)" rule: parse_required.cases) auto

lemma parse_optional_eq:
  "parse_optional chk f =
     (if \<exists>x. f = Present (Some x) \<and> \<not> chk x then None
      else Some (case f of Absent \<Rightarrow> None | Present v \<Rightarrow> v))"
  by (cases "(chk, f)" rule: parse_optional.cases) auto

lemma parse_optional_Some:
  "parse_optional chk f = Some v \<longleftrightarrow>
     (f = Absent \<and> v = None) \<or> (f = Present v \<and> (case v of None \<Rightarrow> True | Some x \<Rightarrow> chk x))"
  by (cases "(chk, f)" rule: parse_optional.cases) auto


lemma UserCreate_parse_Inr:
  "UserCreate_parse b = Inr c \<longleftrightarrow>
     parse_required check_name (j_name b) = Some (c_name c) \<and>
     parse_required (\<lambda>_. True) (j_email b) = Some (c_email c) \<and>
     parse_optional check_age (j_age b) = Some (c_age c) \<and>
     parse_default USER (j_role b) = Some (c_role c)"
  by (cases c) (auto simp: UserCreate_parse_def split: option.splits)

lemma UserCreate_parse_Inl: "UserCreate_parse b = Inl e \<Longrightarrow> e = ValidationError"
  by (auto simp: UserCreate_parse_def split: option.splits)

lemma UserCreate_parse_checked:
  assumes "UserCreate_parse b = Inr c"
  shows "check_name (c_name c)" and "case c_age c of None \<Rightarrow> True | Some a \<Rightarrow> check_age a"
  using assms by (auto simp: UserCreate_parse_Inr parse_required_Some parse_optional_Some)

lemma supplied_iff: "k \<in> supplied k' f \<longleftrightarrow> k = k' \<and> f \<noteq> Absent"
  by (cases f) auto

lemma UserUpdate_parse_eq:
  "UserUpdate_parse b =
     (if (\<exists>n. j_name b = Present (Some n) \<and> \<not> check_name n)
          \<or> (\<exists>a. j_age b = Present (Some a) \<and> \<not> check_age a)
      then Inl ValidationError
      else Inr \<lparr>up_name = (case j_name b of Absent \<Rightarrow> None | Present v \<Rightarrow> v),
                up_email = (case j_email b of Absent \<Rightarrow> None | Present v \<Rightarrow> v),
                up_age = (case j_age b of Absent \<Rightarrow> None | Present v \<Rightarrow> v),
                up_role = (case j_role b of Absent \<Rightarrow> None | Present v \<Rightarrow> v),
                up_is_active = (case j_is_active b of Absent \<Rightarrow> None | Present v \<Rightarrow> v),
                up_fields_set = supplied F_name (j_name b) \<union> supplied F_email (j_email b)
                  \<union> supplied F_age (j_age b) \<union> supplied F_role (j_role b)
                  \<union> supplied F_is_active (j_is_active b)\<rparr>)"
  unfolding UserUpdate_parse_def parse_optional_eq by simp

lemma merge_field:
  "(case (if f \<noteq> Absent then Some (case f of Absent \<Rightarrow> None | Present v \<Rightarrow> v) else None) of
      None \<Rightarrow> old | Some w \<Rightarrow> w) = (case f of Absent \<Rightarrow> old | Present w \<Rightarrow> w)"
  by (cases f) auto

lemma copy_update_parsed:
  assumes "UserUpdate_parse b = Inr m"
  shows "copy_update u (dict_exclude_unset m) =
           u\<lparr>u_name := (case j_name b of Absent \<Rightarrow> u_name u | Present v \<Rightarrow> v),
             u_email := (case j_email b of Absent \<Rightarrow> u_email u | Present v \<Rightarrow> v),
             u_age := (case j_age b of Absent \<Rightarrow> u_age u | Present v \<Rightarrow> v),
             u_role := (case j_role b of Absent \<Rightarrow> u_role u | Present v \<Rightarrow> v),
             u_is_active := (case j_is_active b of Absent \<Rightarrow> u_is_active u | Present v \<Rightarrow> v)\<rparr>"
proof -
  from assms have m: "m = \<lparr>up_name = (case j_name b of Absent \<Rightarrow> None | Present v \<Rightarrow> v),
                up_email = (case j_email b of Absent \<Rightarrow> None | Present v \<Rightarrow> v),
                up_age = (case j_age b of Absent \<Rightarrow> None | Present v \<Rightarrow> v),
                up_role = (case j_role b of Absent \<Rightarrow> None | Present v \<Rightarrow> v),
                up_is_active = (case j_is_active b of Absent \<Rightarrow> None | Present v \<Rightarrow> v),
                up_fields_set = supplied F_name (j_name b) \<union> supplied F_email (j_email b)
                  \<union> supplied F_age (j_age b) \<union> supplied F_role (j_role b)
                  \<union> supplied F_is_active (j_is_active b)\<rparr>"
    by (simp add: UserUpdate_parse_eq split: if_splits)
  show ?thesis
    unfolding m copy_update_def dict_exclude_unset_def
    by (simp add: supplied_iff merge_field cong: if_cong split del: if_split)
qed

section \<open>Looking a record up by id\<close>

lemma user_index_None: "user_index db uid = None \<longleftrightarrow> uid \<notin> u_id ` set db"
  by (induction db) auto

lemma user_index_Some:
  "user_index db uid = Some i \<longleftrightarrow>
     i < length db \<and> u_id (db ! i) = uid \<and> (\<forall>j<i. u_id (db ! j) \<noteq> uid)"
proof (induction db arbitrary: i)
  case Nil
  show ?case by simp
next
  case (Cons u us)
  show ?case
  proof (cases "u_id u = uid")
    case True
    then show ?thesis by (cases i) auto
  next
    case False
    show ?thesis
    proof (cases i)
      case 0
      with False show ?thesis by auto
    next
      case (Suc k)
      have "(\<forall>j<Suc k. u_id ((u # us) ! j) \<noteq> uid) \<longleftrightarrow> (\<forall>j<k. u_id (us ! j) \<noteq> uid)"
        using False by (auto simp: less_Suc_eq_0_disj)
      with Suc False Cons.IH [of k] show ?thesis by auto
    qed
  qed
qed

section \<open>Properties of create\<close>

lemma py_max_Max: "xs \<noteq> [] \<Longrightarrow> py_max xs = Inr (Max (set xs))"
proof (cases xs)
  case Nil
  assume "xs \<noteq> []"
  with Nil show ?thesis by simp
next
  case (Cons x ys)
  have "(\<lambda>y m::int. if y > m then y else m) = max"
    by (auto simp: max_def fun_eq_iff)
  then have "py_max (x # ys) = Inr (fold max ys x)" by simp
  also have "fold max ys x = Max (set (x # ys))" by (rule Max.set_eq_fold [symmetric])
  finally show ?thesis using Cons by simp
qed

lemma new_id_eq: "new_id db = Inr (if db = [] then 1 else 1 + Max (set (map u_id db)))"
  by (simp add: new_id_def py_max_Max)

lemma new_id_fresh: "new_id db = Inr k \<Longrightarrow> k \<notin> u_id ` set db"
proof
  assume k: "new_id db = Inr k" and "k \<in> u_id ` set db"
  then have "db \<noteq> []" and "k \<le> Max (u_id ` set db)" by auto
  with k show False by (simp add: new_id_eq)
qed

lemma post_users_cases:
  "post_users db b = (Inl ValidationError, db) \<or>
   (\<exists>u c. UserCreate_parse b = Inr c \<and> new_id db = Inr (u_id u) \<and> post_users db b = (Inr u, db @ [u]))"
proof (cases "UserCreate_parse b")
  case (Inl e)
  then show ?thesis using UserCreate_parse_Inl [OF Inl] by (simp add: post_users_def)
next
  case (Inr c)
  then show ?thesis using UserCreate_parse_checked [OF Inr]
    by (simp add: post_users_def create_user_def new_id_eq User_init_def)
qed

lemma post_users_distinct:
  assumes "distinct (map u_id db)"
  shows "distinct (map u_id (snd (post_users db b)))"
  using post_users_cases [of db b] assms by (auto dest: new_id_fresh)




lemma body_guest_parse:
  "UserCreate_parse body_guest =
     Inr \<lparr>c_name = ascii ''Dana'', c_email = ascii ''dana@example.com'', c_age = Some 41, c_role = GUEST\<rparr>"
  by (simp add: UserCreate_parse_def body_guest_def check_name_def check_age_def ascii_def)

lemma post_seed_guest:
  "post_users users_db body_guest =
     (Inr \<lparr>u_id = 4, u_name = Some (ascii ''Dana''), u_email = Some (ascii ''dana@example.com''),
           u_age = Some 41, u_role = Some GUEST, u_is_active = Some True\<rparr>,
      users_db @ [\<lparr>u_id = 4, u_name = Some (ascii ''Dana''), u_email = Some (ascii ''dana@example.com''),
           u_age = Some 41, u_role = Some GUEST, u_is_active = Some True\<rparr>])"
  by (simp add: post_users_def body_guest_parse create_user_def new_id_def User_init_def
      check_name_def check_age_def ascii_def users_db_def)

section \<open>Properties of update\<close>

lemma update_user_ids: "map u_id (snd (update_user db uid m)) = map u_id db"
proof (cases "user_index db uid")
  case None
  then show ?thesis by (simp add: update_user_def)
next
  case (Some i)
  then have "i < length db" by (simp add: user_index_Some)
  then have "(map u_id db)[i := u_id (db ! i)] = map u_id db"
    by (metis list_update_id nth_map)
  with Some show ?thesis
    by (simp add: update_user_def Let_def map_update copy_update_def)
qed

lemma put_users_ids: "map u_id (snd (put_users db uid b)) = map u_id db"
  by (cases "UserUpdate_parse b") (simp_all add: put_users_def update_user_ids)

lemma put_users_found:
  assumes "i < length db" and "u_id (db ! i) = uid" and "\<forall>j<i. u_id (db ! j) \<noteq> uid"
    and "\<forall>n. j_name b = Present (Some n) \<longrightarrow> check_name n"
    and "\<forall>a. j_age b = Present (Some a) \<longrightarrow> check_age a"
  shows "put_users db uid b =
           (Inr ((db ! i)\<lparr>u_name := (case j_name b of Absent \<Rightarrow> u_name (db ! i) | Present v \<Rightarrow> v),
             u_email := (case j_email b of Absent \<Rightarrow> u_email (db ! i) | Present v \<Rightarrow> v),
             u_age := (case j_age b of Absent \<Rightarrow> u_age (db ! i) | Present v \<Rightarrow> v),
             u_role := (case j_role b of Absent \<Rightarrow> u_role (db ! i) | Present v \<Rightarrow> v),
             u_is_active := (case j_is_active b of Absent \<Rightarrow> u_is_active (db ! i) | Present v \<Rightarrow> v)\<rparr>),
            db[i := (db ! i)\<lparr>u_name := (case j_name b of Absent \<Rightarrow> u_name (db ! i) | Present v \<Rightarrow> v),
             u_email := (case j_email b of Absent \<Rightarrow> u_email (db ! i) | Present v \<Rightarrow> v),
             u_age := (case j_age b of Absent \<Rightarrow> u_age (db ! i) | Present v \<Rightarrow> v),
             u_role := (case j_role b of Absent \<Rightarrow> u_role (db ! i) | Present v \<Rightarrow> v),
             u_is_active := (case j_is_active b of Absent \<Rightarrow> u_is_active (db ! i) | Present v \<Rightarrow> v)\<rparr>])"
proof -
  from assms(4,5) obtain m where m: "UserUpdate_parse b = Inr m"
    by (auto simp: UserUpdate_parse_eq)
  from assms(1-3) have i: "user_index db uid = Some i"
    by (simp add: user_index_Some)
  show ?thesis
    by (simp add: put_users_def m update_user_def i Let_def copy_update_parsed [OF m])
qed


section \<open>Properties of delete\<close>

lemma length_pop: "i < length xs \<Longrightarrow> length (pop i xs) + 1 = length xs"
  by (simp add: pop_def)

lemma map_pop: "map f (pop i xs) = pop i (map f xs)"
  by (simp add: pop_def take_map drop_map)

lemma distinct_pop: "distinct xs \<Longrightarrow> distinct (pop i xs)"
  unfolding pop_def
  by (simp add: set_take_disj_set_drop_if_distinct)

lemma set_pop:
  assumes "distinct xs" and "i < length xs"
  shows "set (pop i xs) = set xs - {xs ! i}"
proof -
  have xs: "xs = take i xs @ xs ! i # drop (Suc i) xs"
    using assms(2) by (rule id_take_nth_drop)
  with assms(1) have "distinct (take i xs @ xs ! i # drop (Suc i) xs)" by simp
  then have "xs ! i \<notin> set (take i xs)" and "xs ! i \<notin> set (drop (Suc i) xs)" by auto
  moreover have "set xs = set (take i xs) \<union> {xs ! i} \<union> set (drop (Suc i) xs)"
    by (subst xs) auto
  ultimately show ?thesis by (auto simp: pop_def)
qed

lemma delete_user_absent:
  "uid \<notin> u_id ` set db \<Longrightarrow> delete_user db uid = (Inl NotFound, db)"
  by (simp add: delete_user_def user_index_None [symmetric])

lemma delete_user_present:
  assumes "uid \<in> u_id ` set db"
  shows "\<exists>i<length db. u_id (db ! i) = uid \<and> (\<forall>j<i. u_id (db ! j) \<noteq> uid) \<and>
           delete_user db uid =
             (Inr \<lparr>message = delete_message uid, status_code = 200\<rparr>, pop i db)"
proof -
  from assms obtain i where i: "user_index db uid = Some i"
    using user_index_None [of db uid] by (cases "user_index db uid") auto
  then have "i < length db" and "u_id (db ! i) = uid" and "\<forall>j<i. u_id (db ! j) \<noteq> uid"
    by (simp_all add: user_index_Some)
  moreover have "delete_user db uid =
      (Inr \<lparr>message = delete_message uid, status_code = 200\<rparr>, pop i db)"
    by (simp add: delete_user_def i)
  ultimately show ?thesis by blast
qed

lemma delete_user_distinct:
  "distinct (map u_id db) \<Longrightarrow> distinct (map u_id (snd (delete_user db uid)))"
  by (cases "user_index db uid") (simp_all add: delete_user_def map_pop distinct_pop)

lemma get_user_NotFound: "get_user db uid = Inl NotFound \<longleftrightarrow> uid \<notin> u_id ` set db"
proof -
  have "get_user db uid = Inl NotFound \<longleftrightarrow> find (\<lambda>user. u_id user = uid) db = None"
    by (simp add: get_user_def split: option.splits)
  also have "\<dots> \<longleftrightarrow> uid \<notin> u_id ` set db"
    by (auto simp: find_None_iff)
  finally show ?thesis .
qed

lemma get_after_delete:
  assumes "distinct (map u_id db)"
  shows "get_user (snd (delete_user db uid)) uid = Inl NotFound"
proof (cases "uid \<in> u_id ` set db")
  case False
  then show ?thesis by (simp add: delete_user_absent get_user_NotFound)
next
  case True
  from delete_user_present [OF True] obtain i where
    i: "i < length db" "u_id (db ! i) = uid"
    and d: "delete_user db uid = (Inr \<lparr>message = delete_message uid, status_code = 200\<rparr>, pop i db)"
    by blast
  have "set (pop i (map u_id db)) = set (map u_id db) - {map u_id db ! i}"
    using assms i(1) by (intro set_pop) simp_all
  then have "uid \<notin> set (map u_id (pop i db))"
    using i by (simp add: map_pop)
  then show ?thesis using d by (simp add: get_user_NotFound)
qed

lemma message_has_id: "sublist (str_int uid) (delete_message uid)"
  unfolding delete_message_def by (rule sublist_appendI)

lemma reachable_distinct: "reachable db \<Longrightarrow> distinct (map u_id db)"
proof (induction rule: reachable.induct)
  case start
  show ?case by (simp add: users_db_def)
next
  case (post db b)
  from post.IH show ?case by (rule post_users_distinct)
next
  case (put db user_id b)
  from put.IH show ?case by (simp add: put_users_ids)
next
  case (delete db user_id)
  from delete.IH show ?case by (rule delete_user_distinct)
qed

lemma str_int_2: "str_int 2 = [50]"
  by (simp add: str_int_def str_nat.simps)

section \<open>Properties of search\<close>

lemma search_users_unnamed:
  "search_users lower db None role min_age max_age =
     Inr (filter (\<lambda>u. (case role of None \<Rightarrow> True | Some r \<Rightarrow> u_role u = Some r)
                     \<and> (case min_age of None \<Rightarrow> True | Some lo \<Rightarrow> age_at_least lo u)
                     \<and> (case max_age of None \<Rightarrow> True | Some hi \<Rightarrow> age_at_most hi u)) db)"
proof -
  have v: "UserRole_value r \<noteq> []" for r
    by (cases r) (simp_all add: ascii_def)
  show ?thesis
    by (cases role; cases min_age; cases max_age) (simp_all add: search_users_def v conj_commute)
qed

lemma search_seed_min_26:
  "search_users lower users_db None None (Some 26) None =
     Inr [\<lparr>u_id = 2, u_name = Some [51060, 50689, 55148], u_email = Some (ascii ''lee@example.com''),
            u_age = Some 30, u_role = Some ADMIN, u_is_active = Some True\<rparr>]"
  by (simp add: search_users_def users_db_def age_at_least_def)

section \<open>Properties of stats\<close>

lemma fold_count_role:
  "fold count_role db m r =
     (if r \<in> u_role ` set db
      then Some ((case m r of None \<Rightarrow> 0 | Some c \<Rightarrow> c) + int (length (filter (\<lambda>u. u_role u = r) db)))
      else m r)"
proof (induction db arbitrary: m)
  case Nil
  show ?case by simp
next
  case (Cons u us)
  show ?case
  proof (cases "u_role u = r")
    case True
    then have "count_role u m r = Some ((case m r of None \<Rightarrow> 0 | Some c \<Rightarrow> c) + 1)"
      by (simp add: count_role_def)
    moreover have "r \<notin> u_role ` set us \<Longrightarrow> filter (\<lambda>u. u_role u = r) us = []"
      by (auto simp: filter_empty_conv)
    ultimately show ?thesis using True by (auto simp: Cons.IH)
  next
    case False
    then have "count_role u m r = m r" by (simp add: count_role_def)
    with False show ?thesis by (auto simp: Cons.IH)
  qed
qed

lemma role_distribution_eq:
  "role_distribution (get_stats db) r =
     (if r \<in> u_role ` set db then Some (int (card {i. i < length db \<and> u_role (db ! i) = r}))
      else None)"
  by (simp add: get_stats_def Let_def fold_count_role length_filter_conv_card)

section \<open>Results\<close>

subsection \<open>Creating a user\<close>

text \<open>
  Claim C3. For every request body that parses into a \<open>UserCreate\<close> and every collection,
  \<open>POST /users\<close> succeeds: the new record's id is \<open>1\<close> on the empty collection and
  otherwise one more than the largest id present before the insertion; its name, email, age
  and role are the parsed ones and \<open>is_active\<close> is true; the collection afterwards is the
  old one with the new record appended at the end, one longer than before; and the record
  returned is the record appended. (\<open>UserCreate_parse_Inr\<close> says which bodies parse.)
\<close>

theorem create_user_appends:
  assumes "UserCreate_parse b = Inr c"
  shows "\<exists>u. post_users db b = (Inr u, db @ [u])
           \<and> u_id u = (if db = [] then 1 else 1 + Max (set (map u_id db)))
           \<and> u_name u = Some (c_name c) \<and> u_email u = Some (c_email c) \<and> u_age u = c_age c
           \<and> u_role u = Some (c_role c) \<and> u_is_active u = Some True
           \<and> length (snd (post_users db b)) = length db + 1"
  using assms UserCreate_parse_checked [OF assms]
  by (simp add: post_users_def create_user_def new_id_eq User_init_def)

theorem create_user_appends_witness:
  "UserCreate_parse body_guest =
     Inr \<lparr>c_name = ascii ''Dana'', c_email = ascii ''dana@example.com'', c_age = Some 41, c_role = GUEST\<rparr>
   \<and> post_users users_db body_guest =
       (Inr \<lparr>u_id = 4, u_name = Some (ascii ''Dana''), u_email = Some (ascii ''dana@example.com''),
             u_age = Some 41, u_role = Some GUEST, u_is_active = Some True\<rparr>,
        users_db @ [\<lparr>u_id = 4, u_name = Some (ascii ''Dana''), u_email = Some (ascii ''dana@example.com''),
             u_age = Some 41, u_role = Some GUEST, u_is_active = Some True\<rparr>])"
proof -
  note p = body_guest_parse
  from create_user_appends [OF p, of users_db] obtain u where
    u: "post_users users_db body_guest = (Inr u, users_db @ [u])"
       "u_id u = (if users_db = [] then 1 else 1 + Max (set (map u_id users_db)))"
       "u_name u = Some (ascii ''Dana'')" "u_email u = Some (ascii ''dana@example.com'')"
       "u_age u = Some 41" "u_role u = Some GUEST" "u_is_active u = Some True"
    by auto
  have "u_id u = 4" using u(2) by (simp add: users_db_def)
  with u(3-7) have "u = \<lparr>u_id = 4, u_name = Some (ascii ''Dana''), u_email = Some (ascii ''dana@example.com''),
             u_age = Some 41, u_role = Some GUEST, u_is_active = Some True\<rparr>"
    by (cases u) simp
  with u(1) p show ?thesis by simp
qed

text \<open>
  Claim C4. A creation request whose name is shorter than 2 or longer than 50 code points
  ends in \<open>ValidationError\<close> and the collection afterwards is the collection before, whatever
  the other members of the body are.
\<close>

theorem create_user_invalid_name:
  assumes "j_name b = Present (Some n)" and "length n < 2 \<or> 50 < length n"
  shows "post_users db b = (Inl ValidationError, db)"
  using assms by (auto simp: post_users_def UserCreate_parse_def check_name_def split: option.splits)

theorem create_user_invalid_name_witness:
  "j_name body_short_name = Present (Some (ascii ''A'')) \<and> length (ascii ''A'') < 2
   \<and> post_users users_db body_short_name = (Inl ValidationError, users_db)"
  using create_user_invalid_name [of body_short_name "ascii ''A''" users_db]
  by (simp add: body_short_name_def ascii_def)

subsection \<open>Updating a user\<close>




text \<open>
  Claim C9. A member that is present with \<open>null\<close> counts as supplied, whichever member
  it is: \<open>null\<close> is never a validation failure (the request is accepted whenever its
  non-null name and age are valid), and the record returned and stored at the position of
  the id holds \<open>None\<close> in every field the body nulls, name, email, age, role or activity
  flag, while a field whose member is absent keeps its stored value. A record returned by a
  successful creation, in contrast, always has a name of 2 to 50 code points.
\<close>

theorem update_null_overwrites:
  assumes "i < length db" and "u_id (db ! i) = uid" and "\<forall>j<i. u_id (db ! j) \<noteq> uid"
    and "\<forall>n. j_name b = Present (Some n) \<longrightarrow> check_name n"
    and "\<forall>a. j_age b = Present (Some a) \<longrightarrow> check_age a"
  shows "(\<exists>u'. put_users db uid b = (Inr u', db[i := u']) \<and> snd (put_users db uid b) ! i = u'
            \<and> (j_name b = Present None \<longrightarrow> u_name u' = None)
            \<and> (j_email b = Present None \<longrightarrow> u_email u' = None)
            \<and> (j_age b = Present None \<longrightarrow> u_age u' = None)
            \<and> (j_role b = Present None \<longrightarrow> u_role u' = None)
            \<and> (j_is_active b = Present None \<longrightarrow> u_is_active u' = None)
            \<and> (j_name b = Absent \<longrightarrow> u_name u' = u_name (db ! i))
            \<and> (j_email b = Absent \<longrightarrow> u_email u' = u_email (db ! i))
            \<and> (j_age b = Absent \<longrightarrow> u_age u' = u_age (db ! i))
            \<and> (j_role b = Absent \<longrightarrow> u_role u' = u_role (db ! i))
            \<and> (j_is_active b = Absent \<longrightarrow> u_is_active u' = u_is_active (db ! i)))
         \<and> (post_users db0 b0 = (Inr u0, db1) \<longrightarrow>
              (\<exists>n. u_name u0 = Some n \<and> 2 \<le> length n \<and> length n \<le> 50))"
proof (intro conjI impI)
  note f = put_users_found [OF assms]
  from f assms(1)
  show "\<exists>u'. put_users db uid b = (Inr u', db[i := u']) \<and> snd (put_users db uid b) ! i = u'
            \<and> (j_name b = Present None \<longrightarrow> u_name u' = None)
            \<and> (j_email b = Present None \<longrightarrow> u_email u' = None)
            \<and> (j_age b = Present None \<longrightarrow> u_age u' = None)
            \<and> (j_role b = Present None \<longrightarrow> u_role u' = None)
            \<and> (j_is_active b = Present None \<longrightarrow> u_is_active u' = None)
            \<and> (j_name b = Absent \<longrightarrow> u_name u' = u_name (db ! i))
            \<and> (j_email b = Absent \<longrightarrow> u_email u' = u_email (db ! i))
            \<and> (j_age b = Absent \<longrightarrow> u_age u' = u_age (db ! i))
            \<and> (j_role b = Absent \<longrightarrow> u_role u' = u_role (db ! i))
            \<and> (j_is_active b = Absent \<longrightarrow> u_is_active u' = u_is_active (db ! i))"
    by simp
next
  assume p: "post_users db0 b0 = (Inr u0, db1)"
  from post_users_cases [of db0 b0] p obtain c where
    c: "UserCreate_parse b0 = Inr c" by auto
  from c UserCreate_parse_checked(1) [OF c] p
  show "\<exists>n. u_name u0 = Some n \<and> 2 \<le> length n \<and> length n \<le> 50"
    by (auto simp: post_users_def create_user_def new_id_eq User_init_def check_name_def
        split: if_splits)
qed

theorem update_null_overwrites_witness:
  "(1::nat) < length users_db \<and> u_id (users_db ! 1) = 2 \<and> u_id (users_db ! 0) \<noteq> 2
   \<and> put_users users_db 2 body_all_null =
       (Inr \<lparr>u_id = 2, u_name = None, u_email = None, u_age = None, u_role = None,
             u_is_active = None\<rparr>,
        users_db[1 := \<lparr>u_id = 2, u_name = None, u_email = None, u_age = None, u_role = None,
             u_is_active = None\<rparr>])
   \<and> u_name (snd (put_users users_db 2 body_all_null) ! 1) = None
   \<and> u_email (snd (put_users users_db 2 body_all_null) ! 1) = None
   \<and> u_age (snd (put_users users_db 2 body_all_null) ! 1) = None
   \<and> u_role (snd (put_users users_db 2 body_all_null) ! 1) = None
   \<and> u_is_active (snd (put_users users_db 2 body_all_null) ! 1) = None
   \<and> snd (put_users users_db 2 body_empty) ! 1 = users_db ! 1
   \<and> (\<exists>n. u_name (\<lparr>u_id = 4, u_name = Some (ascii ''Dana''),
                     u_email = Some (ascii ''dana@example.com''), u_age = Some 41,
                     u_role = Some GUEST, u_is_active = Some True\<rparr>) = Some n
          \<and> 2 \<le> length n \<and> length n \<le> 50)"
proof -
  have h: "(1::nat) < length users_db" "u_id (users_db ! 1) = 2" "\<forall>j<1. u_id (users_db ! j) \<noteq> 2"
    by (simp_all add: users_db_def)
  have h': "u_id (users_db ! 0) \<noteq> 2"
    by (simp add: users_db_def)
  have v: "\<forall>n. j_name body_all_null = Present (Some n) \<longrightarrow> check_name n"
    "\<forall>a. j_age body_all_null = Present (Some a) \<longrightarrow> check_age a"
    "\<forall>n. j_name body_empty = Present (Some n) \<longrightarrow> check_name n"
    "\<forall>a. j_age body_empty = Present (Some a) \<longrightarrow> check_age a"
    by (simp_all add: body_all_null_def body_empty_def)
  note t = update_null_overwrites [OF h v(1,2), of users_db body_guest _ _]
  from t obtain u' where
    u: "snd (put_users users_db 2 body_all_null) ! 1 = u'"
      "u_name u' = None" "u_email u' = None" "u_age u' = None" "u_role u' = None"
      "u_is_active u' = None"
    by (auto simp: body_all_null_def)
  have e: "put_users users_db 2 body_all_null =
       (Inr \<lparr>u_id = 2, u_name = None, u_email = None, u_age = None, u_role = None,
             u_is_active = None\<rparr>,
        users_db[1 := \<lparr>u_id = 2, u_name = None, u_email = None, u_age = None, u_role = None,
             u_is_active = None\<rparr>])"
    by (simp add: put_users_def UserUpdate_parse_def body_all_null_def update_user_def
        dict_exclude_unset_def copy_update_def users_db_def Let_def)
  from update_null_overwrites [OF h v(3,4), of users_db body_guest _ _] obtain w where
    w: "snd (put_users users_db 2 body_empty) ! 1 = w"
      "u_name w = u_name (users_db ! 1)" "u_email w = u_email (users_db ! 1)"
      "u_age w = u_age (users_db ! 1)" "u_role w = u_role (users_db ! 1)"
      "u_is_active w = u_is_active (users_db ! 1)"
    by (auto simp: body_empty_def)
  have "u_id (snd (put_users users_db 2 body_empty) ! 1) = u_id (users_db ! 1)"
    using put_users_ids [of users_db 2 body_empty] h(1)
    by (metis length_map nth_map)
  with w have w': "snd (put_users users_db 2 body_empty) ! 1 = users_db ! 1"
    by (cases w; cases "users_db ! 1") simp
  from t post_seed_guest
  have c: "\<exists>n. u_name (\<lparr>u_id = 4, u_name = Some (ascii ''Dana''),
                     u_email = Some (ascii ''dana@example.com''), u_age = Some 41,
                     u_role = Some GUEST, u_is_active = Some True\<rparr>) = Some n
          \<and> 2 \<le> length n \<and> length n \<le> 50"
    by blast
  from h(1,2) h' e u w' c show ?thesis by simp
qed


subsection \<open>Deleting a user\<close>

text \<open>
  Claim C6. Deleting ends in \<open>NotFound\<close> exactly when no record has the id, and then the
  collection is unchanged. When some record has it, the request removes the record at one
  position \<open>i\<close> holding that id and nothing else, so the collection is one shorter, and it
  returns the message with status code 200; the message text contains the decimal form of
  the id. When the ids of the collection are pairwise distinct (C5), a get of the same id
  after the delete ends in \<open>NotFound\<close>.
\<close>

theorem delete_user_spec:
  "((fst (delete_user db uid) = Inl NotFound) = (uid \<notin> u_id ` set db))
   \<and> (uid \<notin> u_id ` set db \<longrightarrow> delete_user db uid = (Inl NotFound, db))
   \<and> (uid \<in> u_id ` set db \<longrightarrow>
        (\<exists>i<length db. u_id (db ! i) = uid \<and>
           delete_user db uid =
             (Inr \<lparr>message = delete_message uid, status_code = 200\<rparr>,
              take i db @ drop (Suc i) db))
        \<and> length (snd (delete_user db uid)) + 1 = length db)
   \<and> sublist (str_int uid) (delete_message uid)
   \<and> (distinct (map u_id db) \<longrightarrow> get_user (snd (delete_user db uid)) uid = Inl NotFound)"
proof (intro conjI impI)
  show "(fst (delete_user db uid) = Inl NotFound) = (uid \<notin> u_id ` set db)"
    using delete_user_present [of uid db] delete_user_absent [of uid db] by auto
  show "sublist (str_int uid) (delete_message uid)" by (rule message_has_id)
next
  assume "uid \<notin> u_id ` set db"
  then show "delete_user db uid = (Inl NotFound, db)" by (rule delete_user_absent)
next
  assume p: "uid \<in> u_id ` set db"
  from delete_user_present [OF p]
  show "\<exists>i<length db. u_id (db ! i) = uid \<and>
           delete_user db uid =
             (Inr \<lparr>message = delete_message uid, status_code = 200\<rparr>,
              take i db @ drop (Suc i) db)"
    by (auto simp: pop_def)
  from delete_user_present [OF p]
  show "length (snd (delete_user db uid)) + 1 = length db"
    using length_pop by fastforce
next
  assume "distinct (map u_id db)"
  then show "get_user (snd (delete_user db uid)) uid = Inl NotFound" by (rule get_after_delete)
qed

theorem delete_user_spec_witness:
  "(2::int) \<in> u_id ` set users_db \<and> distinct (map u_id users_db)
   \<and> delete_user users_db 2 =
       (Inr \<lparr>message = [49324, 50857, 51088, 32, 73, 68, 32, 50,
                         44032, 32, 49325, 51228, 46104, 50632, 49845, 45768, 45796],
             status_code = 200\<rparr>,
        [users_db ! 0, users_db ! 2])
   \<and> length (snd (delete_user users_db 2)) + 1 = length users_db
   \<and> get_user (snd (delete_user users_db 2)) 2 = Inl NotFound
   \<and> (7::int) \<notin> u_id ` set users_db
   \<and> delete_user users_db 7 = (Inl NotFound, users_db)"
proof -
  have h: "(2::int) \<in> u_id ` set users_db" "distinct (map u_id users_db)"
    "(7::int) \<notin> u_id ` set users_db"
    by (simp_all add: users_db_def)
  from delete_user_spec [of users_db 2] h
  have a: "length (snd (delete_user users_db 2)) + 1 = length users_db"
    "get_user (snd (delete_user users_db 2)) 2 = Inl NotFound"
    by simp_all
  from delete_user_spec [of users_db 7] h
  have b: "delete_user users_db 7 = (Inl NotFound, users_db)" by simp
  have c: "delete_user users_db 2 =
       (Inr \<lparr>message = [49324, 50857, 51088, 32, 73, 68, 32, 50,
                         44032, 32, 49325, 51228, 46104, 50632, 49845, 45768, 45796],
             status_code = 200\<rparr>,
        [users_db ! 0, users_db ! 2])"
    by (simp add: delete_user_def users_db_def pop_def delete_message_def str_int_2)
  from h a b c show ?thesis by simp
qed

subsection \<open>Uniqueness of ids\<close>

text \<open>
  Claim C5. The ids of the seed collection are pairwise distinct; creating, updating and
  deleting each leave pairwise-distinct ids pairwise distinct, whether the request succeeds
  or fails; an update leaves the list of ids as it was; hence the ids of every reachable
  collection are pairwise distinct.
\<close>

theorem ids_unique_invariant:
  "distinct (map u_id users_db)
   \<and> (distinct (map u_id db) \<longrightarrow>
        distinct (map u_id (snd (post_users db b)))
        \<and> distinct (map u_id (snd (put_users db uid b)))
        \<and> distinct (map u_id (snd (delete_user db uid))))
   \<and> map u_id (snd (put_users db uid b)) = map u_id db
   \<and> (reachable db \<longrightarrow> distinct (map u_id db))"
  by (simp add: post_users_distinct put_users_ids delete_user_distinct reachable_distinct)
    (simp add: users_db_def)

theorem ids_unique_invariant_witness:
  "distinct (map u_id users_db)
   \<and> distinct (map u_id (snd (post_users users_db body_guest)))
   \<and> distinct (map u_id (snd (put_users users_db 2 (body_age_only 41))))
   \<and> distinct (map u_id (snd (delete_user users_db 2)))
   \<and> reachable (snd (delete_user users_db 2))
   \<and> distinct (map u_id (snd (delete_user (snd (delete_user users_db 2)) 3)))"
proof -
  have r: "reachable (snd (delete_user users_db 2))"
    by (rule reachable.delete) (rule reachable.start)
  from ids_unique_invariant [of users_db body_guest 2]
  have a: "distinct (map u_id users_db)"
    "distinct (map u_id (snd (post_users users_db body_guest)))"
    "distinct (map u_id (snd (put_users users_db 2 (body_age_only 41))))"
    "distinct (map u_id (snd (delete_user users_db 2)))"
    using ids_unique_invariant [of users_db "body_age_only 41" 2] by simp_all
  from ids_unique_invariant [of "snd (delete_user users_db 2)" body_guest 3] r
  have "distinct (map u_id (snd (delete_user (snd (delete_user users_db 2)) 3)))"
    by simp
  with a r show ?thesis by simp
qed

subsection \<open>Searching\<close>

text \<open>
  Claim C8. With no parameter supplied the search returns the collection itself, same
  records in the same order, for every collection and without an error.
\<close>

theorem search_users_no_parameters:
  "search_users lower db None None None None = Inr db"
  by (simp add: search_users_def)

text \<open>
  Claim C10. The empty string as name parameter is the same as no name parameter, whatever
  the other parameters are; alone it returns the whole collection. A non-empty name alone
  gives the result of the name filter.
\<close>

theorem search_users_empty_name:
  "search_users lower db (Some []) role min_age max_age
     = search_users lower db None role min_age max_age
   \<and> search_users lower db (Some []) None None None = Inr db
   \<and> search_users lower db (Some (c # cs)) None None None = filter_name lower (c # cs) db"
  by (simp add: search_users_def split: sum.splits)

text \<open>
  Claim C2, evaluated where the search departs from it. Creating a user of age 0 on the
  seed collection succeeds (0 is within the age constraint). Searching the resulting
  collection with \<open>min_age = 0\<close>, or with \<open>max_age = 120\<close>, returns the three seed records
  only: the user of age 0, whose age is present and within either bound, is left out,
  because \<open>u.age and ...\<close> is falsy for age 0. (\<open>search_users_unnamed\<close> is what the
  age filters compute in general, and \<open>search_seed_min_26\<close> the example of the claim.)
\<close>

theorem search_min_age_drops_age_zero:
  "post_users users_db body_infant = (Inr infant, users_db @ [infant])
   \<and> u_age infant = Some 0
   \<and> (\<forall>lower. search_users lower (users_db @ [infant]) None None (Some 0) None = Inr users_db)
   \<and> (\<forall>lower. search_users lower (users_db @ [infant]) None None None (Some 120) = Inr users_db)"
proof (intro conjI allI)
  show "post_users users_db body_infant = (Inr infant, users_db @ [infant])"
    by (simp add: post_users_def UserCreate_parse_def body_infant_def create_user_def new_id_def
        User_init_def check_name_def check_age_def ascii_def infant_def users_db_def)
  show "u_age infant = Some 0" by (simp add: infant_def)
  show "search_users lower (users_db @ [infant]) None None (Some 0) None = Inr users_db" for lower
    by (simp add: search_users_def users_db_def infant_def age_at_least_def)
  show "search_users lower (users_db @ [infant]) None None None (Some 120) = Inr users_db" for lower
    by (simp add: search_users_def users_db_def infant_def age_at_most_def)
qed

subsection \<open>Statistics\<close>

text \<open>
  Claim C7. For every collection: the total is the length of the collection; the active
  count is the number of positions whose record has \<open>is_active\<close> true; the inactive count
  is the total minus the active count; the keys of the role distribution are exactly the
  role values occurring in the collection, and each key is mapped to the number of
  positions holding it. A key is the value of a record's role field, so \<open>None\<close> is a key
  when an update has nulled a role. On the seed collection the four results are 3, 3, 0
  and \<open>{user: 2, admin: 1}\<close>.
\<close>

theorem get_stats_counts:
  "total_users (get_stats db) = int (length db)
   \<and> active_users (get_stats db) = int (card {i. i < length db \<and> u_is_active (db ! i) = Some True})
   \<and> inactive_users (get_stats db) = total_users (get_stats db) - active_users (get_stats db)
   \<and> dom (role_distribution (get_stats db)) = u_role ` set db
   \<and> (\<forall>r \<in> u_role ` set db.
        role_distribution (get_stats db) r
          = Some (int (card {i. i < length db \<and> u_role (db ! i) = r})))
   \<and> total_users (get_stats users_db) = 3
   \<and> active_users (get_stats users_db) = 3
   \<and> inactive_users (get_stats users_db) = 0
   \<and> role_distribution (get_stats users_db) = [Some USER \<mapsto> 2, Some ADMIN \<mapsto> 1]"
proof (intro conjI ballI)
  show "total_users (get_stats db) = int (length db)"
    by (simp add: get_stats_def Let_def)
  show "active_users (get_stats db) = int (card {i. i < length db \<and> u_is_active (db ! i) = Some True})"
    by (simp add: get_stats_def Let_def length_filter_conv_card)
  show "inactive_users (get_stats db) = total_users (get_stats db) - active_users (get_stats db)"
    by (simp add: get_stats_def Let_def)
  show "dom (role_distribution (get_stats db)) = u_role ` set db"
    by (auto simp: dom_def role_distribution_eq)
  show "role_distribution (get_stats db) r
          = Some (int (card {i. i < length db \<and> u_role (db ! i) = r}))"
    if "r \<in> u_role ` set db" for r
    using that by (simp add: role_distribution_eq)
  show "total_users (get_stats users_db) = 3"
    by (simp add: get_stats_def Let_def users_db_def)
  show "active_users (get_stats users_db) = 3"
    by (simp add: get_stats_def Let_def users_db_def)
  show "inactive_users (get_stats users_db) = 0"
    by (simp add: get_stats_def Let_def users_db_def)
  show "role_distribution (get_stats users_db) = [Some USER \<mapsto> 2, Some ADMIN \<mapsto> 1]"
    by (rule ext) (simp add: get_stats_def Let_def users_db_def count_role_def)
qed

theorem get_stats_counts_witness:
  "Some ADMIN \<in> u_role ` set users_db
   \<and> role_distribution (get_stats users_db) (Some ADMIN)
       = Some (int (card {i. i < length users_db \<and> u_role (users_db ! i) = Some ADMIN}))
   \<and> role_distribution (get_stats users_db) (Some ADMIN) = Some 1
   \<and> role_distribution (get_stats users_db) (Some GUEST) = None"
proof -
  have h: "Some ADMIN \<in> u_role ` set users_db" by (simp add: users_db_def)
  from get_stats_counts [of users_db] h
  have "role_distribution (get_stats users_db) (Some ADMIN)
       = Some (int (card {i. i < length users_db \<and> u_role (users_db ! i) = Some ADMIN}))"
    by blast
  moreover from get_stats_counts [of users_db]
  have "role_distribution (get_stats users_db) = [Some USER \<mapsto> 2, Some ADMIN \<mapsto> 1]"
    by blast
  ultimately show ?thesis using h by simp
qed

end
